theory Spec2Isabelle
  imports Complex_Main "HOL-Library.Extended_Nat"
begin

section \<open>Data model\<close>

text \<open>
  A Python \<^verbatim>\<open>str\<close> that the program strips and splits is a list of code points, so that
  the whitespace of \<^verbatim>\<open>str.strip()\<close> beyond ASCII (U+0085, U+00A0, U+2003, ...) is in the
  model; the same type holds the text of a file. File names, messages and timestamps are
  ASCII strings. \<open>py\<close> gives the code points of an ASCII literal.
\<close>

type_synonym pystr = "nat list"

definition py :: "string \<Rightarrow> pystr" where
  "py s = map of_char s"

text \<open>
  One scraped table row, the dict \<^verbatim>\<open>{"pair": ..., "price": ..., "change_24h": ...}\<close>
  built by \<^verbatim>\<open>parse_market_from_html\<close>.
\<close>

record row =
  pair :: pystr
  price :: pystr
  change_24h :: pystr

text \<open>
  The dict built by \<^verbatim>\<open>update_data_loop\<close>: a timestamp, a price (a float rounded to two
  places) and a volume.
\<close>

record sample =
  timestamp :: string
  sample_price :: real
  volume :: int

text \<open>
  The global \<^verbatim>\<open>latest_data\<close> holds a list of rows (initially \<^verbatim>\<open>[]\<close>, later whatever
  \<^verbatim>\<open>scrape_loop\<close> stores) or the three-key dict that \<^verbatim>\<open>update_data_loop\<close> stores.
\<close>

datatype latest = Rows "row list" | Sample sample

text \<open>Python truthiness (\<^verbatim>\<open>if data\<close>, \<^verbatim>\<open>if not data\<close>) and \<^verbatim>\<open>len\<close> of such a value.\<close>

fun truthy :: "latest \<Rightarrow> bool" where
  "truthy (Rows rs) = (rs \<noteq> [])"
| "truthy (Sample d) = True"

fun py_len :: "latest \<Rightarrow> nat" where
  "py_len (Rows rs) = length rs"
| "py_len (Sample d) = 3"

text \<open>Exceptions that the modelled code can meet.\<close>

datatype exn = IndexError | OSError | WebDriverException | ParserRejectedMarkup

section \<open>The extractor: \<^verbatim>\<open>parse_market_from_html\<close>\<close>

text \<open>
  \<^verbatim>\<open>str.strip()\<close> and \<^verbatim>\<open>str.split("\n")\<close>. The whitespace that \<^verbatim>\<open>strip\<close> removes is
  Python's: the code points U+0009 to U+000D, U+001C to U+0020, U+0085, U+00A0, U+1680,
  U+2000 to U+200A, U+2028, U+2029, U+202F, U+205F and U+3000.
\<close>

definition isspace :: "nat \<Rightarrow> bool" where
  "isspace n =
     ((9 \<le> n \<and> n \<le> 13) \<or> (28 \<le> n \<and> n \<le> 32) \<or> n = 133 \<or> n = 160 \<or> n = 5760 \<or>
      (8192 \<le> n \<and> n \<le> 8202) \<or> n = 8232 \<or> n = 8233 \<or> n = 8239 \<or> n = 8287 \<or>
      n = 12288)"

definition strip :: "pystr \<Rightarrow> pystr" where
  "strip s = rev (dropWhile isspace (rev (dropWhile isspace s)))"

fun split_nl :: "pystr \<Rightarrow> pystr list" where
  "split_nl [] = [[]]"
| "split_nl (c # cs) =
     (if c = 10 then [] # split_nl cs
      else (case split_nl cs of
              [] \<Rightarrow> [[c]]
            | w # ws \<Rightarrow> (c # w) # ws))"

text \<open>Indexing a list as Python does for a non-negative index: out of range raises.\<close>

definition py_get :: "'a list \<Rightarrow> nat \<Rightarrow> exn + 'a" where
  "py_get xs i = (if i < length xs then Inr (xs ! i) else Inl IndexError)"

text \<open>
  The non-blank, stripped lines of one row's text:
  \<^verbatim>\<open>[p.strip() for p in text.split("\n") if p.strip() != ""]\<close> after \<^verbatim>\<open>text.strip()\<close>.
\<close>

definition row_parts :: "pystr \<Rightarrow> pystr list" where
  "row_parts raw = map strip (filter (\<lambda>p. strip p \<noteq> []) (split_nl (strip raw)))"

text \<open>The three reads \<^verbatim>\<open>parts[0]\<close>, \<^verbatim>\<open>parts[1]\<close>, \<^verbatim>\<open>parts[2]\<close> and the dict built from them.\<close>

definition make_row :: "pystr list \<Rightarrow> exn + row" where
  "make_row parts =
     (case py_get parts 0 of
        Inl e \<Rightarrow> Inl e
      | Inr a \<Rightarrow>
          (case py_get parts 1 of
             Inl e \<Rightarrow> Inl e
           | Inr b \<Rightarrow>
               (case py_get parts 2 of
                  Inl e \<Rightarrow> Inl e
                | Inr c \<Rightarrow> Inr \<lparr>pair = a, price = b, change_24h = c\<rparr>)))"

text \<open>
  The test \<^verbatim>\<open>MAX_ROWS and len(results) >= MAX_ROWS\<close>: \<^verbatim>\<open>None\<close> and \<^verbatim>\<open>0\<close> are both falsy.
\<close>

definition cap_reached :: "int option \<Rightarrow> nat \<Rightarrow> bool" where
  "cap_reached max_rows n =
     (case max_rows of None \<Rightarrow> False | Some m \<Rightarrow> m \<noteq> 0 \<and> m \<le> int n)"

text \<open>The \<^verbatim>\<open>for row in rows\<close> loop with its \<^verbatim>\<open>break\<close>; \<open>results\<close> is the accumulator.\<close>

fun rows_loop :: "int option \<Rightarrow> pystr list \<Rightarrow> row list \<Rightarrow> exn + row list" where
  "rows_loop max_rows [] results = Inr results"
| "rows_loop max_rows (raw # rest) results =
     (let parts = row_parts raw in
      case (if 3 \<le> length parts
            then (case make_row parts of Inl e \<Rightarrow> Inl e | Inr r \<Rightarrow> Inr (results @ [r]))
            else Inr results) of
        Inl e \<Rightarrow> Inl e
      | Inr results' \<Rightarrow>
          if cap_reached max_rows (length results') then Inr results'
          else rows_loop max_rows rest results')"

text \<open>
  \<open>select_texts html\<close> stands for the library part of the function, lines 110, 111 and
  the \<^verbatim>\<open>get_text\<close> of line 114: the texts \<^verbatim>\<open>row.get_text(separator="\n")\<close> of the elements
  that \<^verbatim>\<open>BeautifulSoup(html, "html.parser").select(ROW_SELECTOR)\<close> returns, in document
  order, or the exception that the library raises (bs4 raises \<^verbatim>\<open>ParserRejectedMarkup\<close> when
  the parser gives up on the markup). The function has no \<^verbatim>\<open>try\<close>: an exception of the
  library leaves it. \<open>max_rows\<close> is the module constant \<^verbatim>\<open>MAX_ROWS\<close> (\<^verbatim>\<open>None\<close> in the
  source).
\<close>

definition parse_market_from_html ::
  "(pystr \<Rightarrow> exn + pystr list) \<Rightarrow> int option \<Rightarrow> pystr \<Rightarrow> exn + row list" where
  "parse_market_from_html select_texts max_rows html =
     (case select_texts html of
        Inl e \<Rightarrow> Inl e
      | Inr texts \<Rightarrow> rows_loop max_rows texts [])"

text \<open>
  Two library answers for the examples below: one that finds the given row texts
  whatever the markup, and one that rejects the markup.
\<close>

definition fixed_page :: "pystr list \<Rightarrow> pystr \<Rightarrow> exn + pystr list" where
  "fixed_page texts html = Inr texts"

definition rejecting_page :: "pystr \<Rightarrow> exn + pystr list" where
  "rejecting_page html = Inl ParserRejectedMarkup"

section \<open>The durable writer: \<^verbatim>\<open>save_json_atomic\<close>\<close>

text \<open>
  The disk: the text of each file, by path; \<open>None\<close> where no file exists. Paths are
  taken as canonical names: two different strings are two different files.
\<close>

type_synonym disk = "string \<Rightarrow> pystr option"

text \<open>
  What the operating system answers during one call of the writer:
  \<^item> \<open>mkstemp_name\<close>: the path of the temporary file that \<^verbatim>\<open>tempfile.mkstemp\<close> creates, or
    \<open>None\<close> when it raises (or when line 63, which computes its directory, does);
  \<^item> \<open>dump_result\<close>: whether \<^verbatim>\<open>json.dump\<close>, \<^verbatim>\<open>flush\<close> and \<^verbatim>\<open>fsync\<close> all succeed, or one of
    them raises, leaving the given partial text in the temporary file;
  \<^item> \<open>copy_result\<close>: whether \<^verbatim>\<open>shutil.copy2\<close> succeeds, or raises, leaving the backup path
    as it was (\<open>None\<close>) or holding the given partial text;
  \<^item> \<open>replace_ok\<close>: whether \<^verbatim>\<open>os.replace\<close> succeeds;
  \<^item> \<open>remove_ok\<close>: whether the \<^verbatim>\<open>os.remove\<close> of the clean-up succeeds.
\<close>

datatype dump_outcome = DumpOk | DumpRaises pystr

datatype copy_outcome = CopyOk | CopyRaises "pystr option"

record os_env =
  mkstemp_name :: "string option"
  dump_result :: dump_outcome
  copy_result :: copy_outcome
  replace_ok :: bool
  remove_ok :: bool

text \<open>How a call of the writer ends.\<close>

datatype exit = Skipped \<comment> \<open>\<^verbatim>\<open>if not data: return\<close>\<close>
  | Written \<comment> \<open>\<^verbatim>\<open>os.replace\<close> done\<close>
  | Failed \<comment> \<open>an exception caught and printed by the writer's own handler\<close>
  | Raised \<comment> \<open>an exception that leaves the writer: line 64 is outside its \<^verbatim>\<open>try\<close>\<close>

text \<open>
  The handler's clean-up: \<^verbatim>\<open>if os.path.exists(tmp_path): os.remove(tmp_path)\<close>, any
  exception of which is swallowed.
\<close>

definition cleanup :: "os_env \<Rightarrow> string \<Rightarrow> disk \<Rightarrow> disk" where
  "cleanup env tmp d =
     (if d tmp \<noteq> None then (if remove_ok env then d(tmp := None) else d) else d)"

text \<open>
  Lines 70 to 74: \<^verbatim>\<open>if backup_path and os.path.exists(path)\<close>, then the copy, whose
  exception is caught and printed. \<^verbatim>\<open>shutil.copy2\<close> raises \<^verbatim>\<open>SameFileError\<close> when both paths
  are the same file.
\<close>

definition backup_step :: "os_env \<Rightarrow> string \<Rightarrow> string option \<Rightarrow> disk \<Rightarrow> disk" where
  "backup_step env path backup_path d =
     (case backup_path of
        None \<Rightarrow> d
      | Some b \<Rightarrow>
          if b \<noteq> [] \<and> d path \<noteq> None then
            (if b = path then d
             else (case copy_result env of
                     CopyOk \<Rightarrow> d(b := d path)
                   | CopyRaises None \<Rightarrow> d
                   | CopyRaises (Some part) \<Rightarrow> d(b \<mapsto> part)))
          else d)"

text \<open>
  The writer, statement by statement. It returns the successive states of the disk, the
  first being the disk it found and the last the disk it leaves, and how it ended.
  \<open>dump\<close> is \<^verbatim>\<open>json.dump(data, f, indent=4, ensure_ascii=False)\<close>, the text it writes.
\<close>

definition save_json_states ::
  "(latest \<Rightarrow> pystr) \<Rightarrow> os_env \<Rightarrow> disk \<Rightarrow> string \<Rightarrow> latest \<Rightarrow> string option
     \<Rightarrow> disk list \<times> exit" where
  "save_json_states dump env d path data backup_path =
     (if \<not> truthy data then ([d], Skipped)
      else (case mkstemp_name env of
              None \<Rightarrow> ([d], Raised)
            | Some tmp \<Rightarrow>
                (let d1 = d(tmp \<mapsto> []) in
                 case dump_result env of
                   DumpRaises part \<Rightarrow>
                     (let d2 = d1(tmp \<mapsto> part) in ([d, d1, d2, cleanup env tmp d2], Failed))
                 | DumpOk \<Rightarrow>
                     (let d2 = d1(tmp \<mapsto> dump data);
                          d3 = backup_step env path backup_path d2
                      in if replace_ok env
                         then ([d, d1, d2, d3, d3(path := d3 tmp, tmp := None)], Written)
                         else ([d, d1, d2, d3, cleanup env tmp d3], Failed)))))"

definition save_json_atomic ::
  "(latest \<Rightarrow> pystr) \<Rightarrow> os_env \<Rightarrow> disk \<Rightarrow> string \<Rightarrow> latest \<Rightarrow> string option
     \<Rightarrow> disk \<times> exit" where
  "save_json_atomic dump env d path data backup_path =
     (let (ds, x) = save_json_states dump env d path data backup_path in (last ds, x))"

text \<open>
  The disk states in which a crash before the rename can leave the machine: every state
  but the one that \<^verbatim>\<open>os.replace\<close> produces.
\<close>

definition crash_states ::
  "(latest \<Rightarrow> pystr) \<Rightarrow> os_env \<Rightarrow> disk \<Rightarrow> string \<Rightarrow> latest \<Rightarrow> string option \<Rightarrow> disk list" where
  "crash_states dump env d path data backup_path =
     (let (ds, x) = save_json_states dump env d path data backup_path
      in if x = Written then butlast ds else ds)"

text \<open>
  \<^verbatim>\<open>mkstemp\<close> creates a file that did not exist, under a name of its own making: not the
  primary path and not the backup path.
\<close>

definition fresh_temp :: "os_env \<Rightarrow> disk \<Rightarrow> string \<Rightarrow> string option \<Rightarrow> bool" where
  "fresh_temp env d path backup_path =
     (case mkstemp_name env of
        None \<Rightarrow> True
      | Some tmp \<Rightarrow> d tmp = None \<and> tmp \<noteq> path \<and> backup_path \<noteq> Some tmp)"

text \<open>A serializer for the examples: one line per row, fields separated by commas.\<close>

fun line_dump :: "latest \<Rightarrow> pystr" where
  "line_dump (Rows rs) =
     concat (map (\<lambda>r. pair r @ py '','' @ price r @ py '','' @ change_24h r @ py '';'') rs)"
| "line_dump (Sample s) = py (timestamp s)"

section \<open>The acquisition loop: \<^verbatim>\<open>scrape_loop\<close>\<close>

definition JSON_FILE :: string where
  "JSON_FILE = ''crypto_data.json''"

definition BACKUP_FILE :: string where
  "BACKUP_FILE = ''crypto_data_backup.json''"

text \<open>
  The local \<^verbatim>\<open>backoff\<close> is a float that starts at \<^verbatim>\<open>1.0\<close> and is only ever doubled or set
  back to \<^verbatim>\<open>1.0\<close>: its values are the powers of two, which a double holds exactly up to
  \<open>2 ^ 1023\<close>; doubling that gives \<^verbatim>\<open>inf\<close>, and \<^verbatim>\<open>inf * 2.0\<close> is \<^verbatim>\<open>inf\<close>. So the value is
  an extended natural number.
\<close>

definition float_double :: "enat \<Rightarrow> enat" where
  "float_double b = (if 2 * b < 2 ^ 1024 then 2 * b else \<infinity>)"

text \<open>
  What one pass of the loop does that the properties below are about: taking and
  releasing \<^verbatim>\<open>latest_data_lock\<close>, calling the durable writer, and the sleep of the
  exception handler, with its delay \<^verbatim>\<open>min(backoff, 30)\<close>.
\<close>

datatype event = LockAcquire | LockRelease | DurableWrite | BackoffSleep enat

text \<open>
  The state of the loop: the global \<^verbatim>\<open>latest_data\<close>, whether the local \<^verbatim>\<open>driver\<close> holds a
  webdriver (is not \<^verbatim>\<open>None\<close>), the local \<^verbatim>\<open>backoff\<close>, and the disk.
\<close>

record loop_state =
  latest_data :: latest
  driver :: bool
  backoff :: enat
  files :: disk

text \<open>
  What the world answers during one pass: whether \<^verbatim>\<open>create_driver()\<close> raises, whether
  \<^verbatim>\<open>driver.get\<close> raises, the markup \<^verbatim>\<open>driver.page_source\<close> returns (\<open>None\<close> when it raises),
  and the operating system's answers to the writer call of the \<^verbatim>\<open>try\<close> body and to the
  writer call of the exception handler.
\<close>

record iter_env =
  create_raises :: bool
  get_raises :: bool
  page_source :: "pystr option"
  body_os :: os_env
  handler_os :: os_env

text \<open>
  Lines 139 to 173, the body of the \<^verbatim>\<open>try\<close>. The result is the events, whether an
  exception reached the \<^verbatim>\<open>except Exception\<close> clause, and the state at that point. An
  exception of \<^verbatim>\<open>execute_script\<close> is swallowed at line 147, and the polling sleep of lines
  170 to 173 changes nothing here.
\<close>

definition try_body ::
  "(latest \<Rightarrow> pystr) \<Rightarrow> (pystr \<Rightarrow> exn + pystr list) \<Rightarrow> int option \<Rightarrow> iter_env \<Rightarrow> loop_state
     \<Rightarrow> event list \<times> bool \<times> loop_state" where
  "try_body dump select_texts max_rows env s =
     (if \<not> driver s \<and> create_raises env then ([], True, s)
      else if \<not> driver s \<and> get_raises env then ([], True, s\<lparr>driver := True\<rparr>)
      else
        (let s1 = s\<lparr>driver := True\<rparr> in
         case page_source env of
           None \<Rightarrow> ([], True, s1)
         | Some html \<Rightarrow>
             (case parse_market_from_html select_texts max_rows html of
                Inl e \<Rightarrow> ([], True, s1)
              | Inr parsed \<Rightarrow>
                  if parsed \<noteq> [] then
                    (let s2 = s1\<lparr>latest_data := Rows parsed\<rparr>;
                         (d, x) = save_json_atomic dump (body_os env) (files s2) JSON_FILE
                                    (latest_data s2) (Some BACKUP_FILE)
                     in if x = Raised
                        then ([LockAcquire, LockRelease, DurableWrite], True, s2\<lparr>files := d\<rparr>)
                        else ([LockAcquire, LockRelease, DurableWrite], False,
                              s2\<lparr>files := d, backoff := 1\<rparr>))
                  else
                    (let to_save = latest_data s1 in
                     if truthy to_save then
                       (let (d, x) = save_json_atomic dump (body_os env) (files s1) JSON_FILE
                                       to_save (Some BACKUP_FILE)
                        in ([LockAcquire, LockRelease, DurableWrite], x = Raised,
                            s1\<lparr>files := d\<rparr>))
                     else ([LockAcquire, LockRelease], False, s1)))))"

text \<open>
  Lines 175 to 195, the \<^verbatim>\<open>except Exception\<close> clause: the driver is quit and dropped, the
  last snapshot is saved again inside \<^verbatim>\<open>with latest_data_lock\<close>, then the sleep and the
  doubling. The result is the events, the exception that leaves the clause if any (the
  clause has no handler of its own around the writer call), and the state.
\<close>

definition handler ::
  "(latest \<Rightarrow> pystr) \<Rightarrow> iter_env \<Rightarrow> loop_state \<Rightarrow> event list \<times> exn option \<times> loop_state" where
  "handler dump env s =
     (let s1 = s\<lparr>driver := False\<rparr> in
      if truthy (latest_data s1) then
        (let (d, x) = save_json_atomic dump (handler_os env) (files s1) JSON_FILE
                        (latest_data s1) (Some BACKUP_FILE)
         in if x = Raised
            then ([LockAcquire, DurableWrite, LockRelease], Some OSError, s1\<lparr>files := d\<rparr>)
            else ([LockAcquire, DurableWrite, LockRelease, BackoffSleep (min (backoff s1) 30)],
                  None, s1\<lparr>files := d, backoff := float_double (backoff s1)\<rparr>))
      else ([LockAcquire, LockRelease, BackoffSleep (min (backoff s1) 30)], None,
            s1\<lparr>backoff := float_double (backoff s1)\<rparr>))"

text \<open>One pass of the \<^verbatim>\<open>while\<close> loop.\<close>

definition scrape_iteration ::
  "(latest \<Rightarrow> pystr) \<Rightarrow> (pystr \<Rightarrow> exn + pystr list) \<Rightarrow> int option \<Rightarrow> iter_env \<Rightarrow> loop_state
     \<Rightarrow> event list \<times> exn option \<times> loop_state" where
  "scrape_iteration dump select_texts max_rows env s =
     (case try_body dump select_texts max_rows env s of
        (ev, raised, s1) \<Rightarrow>
          if raised
          then (case handler dump env s1 of (ev', r, s2) \<Rightarrow> (ev @ ev', r, s2))
          else (ev, None, s1))"

text \<open>
  The loop runs one pass for each time it finds \<^verbatim>\<open>stop_event\<close> unset: the list holds the
  world's answers for these passes. It ends when the list is used up (the event is set)
  or when an exception leaves a pass, which ends the thread. The \<^verbatim>\<open>driver.quit()\<close> after
  the loop (lines 198 to 202) changes nothing that the state records.
\<close>

fun scrape_loop ::
  "(latest \<Rightarrow> pystr) \<Rightarrow> (pystr \<Rightarrow> exn + pystr list) \<Rightarrow> int option \<Rightarrow> iter_env list \<Rightarrow> loop_state
     \<Rightarrow> event list \<times> exn option \<times> loop_state" where
  "scrape_loop dump select_texts max_rows [] s = ([], None, s)"
| "scrape_loop dump select_texts max_rows (env # envs) s =
     (case scrape_iteration dump select_texts max_rows env s of
        (ev, Some e, s1) \<Rightarrow> (ev, Some e, s1)
      | (ev, None, s1) \<Rightarrow>
          (case scrape_loop dump select_texts max_rows envs s1 of
             (ev', r, s2) \<Rightarrow> (ev @ ev', r, s2)))"

text \<open>The state in which the thread starts: lines 48, 134 and 135.\<close>

definition initial_state :: "disk \<Rightarrow> loop_state" where
  "initial_state d = \<lparr>latest_data = Rows [], driver = False, backoff = 1, files = d\<rparr>"

text \<open>One pass of \<^verbatim>\<open>update_data_loop\<close>, which stores the dict it has just made.\<close>

definition update_data_iteration :: "sample \<Rightarrow> loop_state \<Rightarrow> loop_state" where
  "update_data_iteration new_data s = s\<lparr>latest_data := Sample new_data\<rparr>"

text \<open>
  Passes of the two loops, in any order. A pass of \<^verbatim>\<open>scrape_loop\<close> is run here even
  after one that let an exception out: these are more runs than the program has.
\<close>

datatype pass = Scrape iter_env | Update sample

fun run_passes ::
  "(latest \<Rightarrow> pystr) \<Rightarrow> (pystr \<Rightarrow> exn + pystr list) \<Rightarrow> int option \<Rightarrow> pass list \<Rightarrow> loop_state
     \<Rightarrow> loop_state" where
  "run_passes dump select_texts max_rows [] s = s"
| "run_passes dump select_texts max_rows (Scrape env # ps) s =
     run_passes dump select_texts max_rows ps
       (snd (snd (scrape_iteration dump select_texts max_rows env s)))"
| "run_passes dump select_texts max_rows (Update new_data # ps) s =
     run_passes dump select_texts max_rows ps (update_data_iteration new_data s)"

text \<open>The delays of the handler's sleeps, in order.\<close>

fun delays :: "event list \<Rightarrow> enat list" where
  "delays [] = []"
| "delays (BackoffSleep t # es) = t # delays es"
| "delays (LockAcquire # es) = delays es"
| "delays (LockRelease # es) = delays es"
| "delays (DurableWrite # es) = delays es"

text \<open>
  Whether every call of the writer in a run of events happens with the lock released;
  \<open>held\<close> says whether the lock is held at the start.
\<close>

fun writes_unlocked :: "bool \<Rightarrow> event list \<Rightarrow> bool" where
  "writes_unlocked held [] = True"
| "writes_unlocked held (LockAcquire # es) = writes_unlocked True es"
| "writes_unlocked held (LockRelease # es) = writes_unlocked False es"
| "writes_unlocked held (DurableWrite # es) = (\<not> held \<and> writes_unlocked held es)"
| "writes_unlocked held (BackoffSleep t # es) = writes_unlocked held es"

section \<open>The query interface: \<^verbatim>\<open>get_latest\<close>\<close>

text \<open>
  The JSON bodies \<^verbatim>\<open>{"error": ...}\<close> and \<^verbatim>\<open>{"timestamp": ..., "count": ..., "data": ...}\<close>,
  and a response: a body and a status, 200 where the view returns the body alone.
\<close>

datatype body = ErrorBody string | LatestBody string nat latest

record response =
  payload :: body
  status :: nat

text \<open>\<open>now\<close> is what \<^verbatim>\<open>time.strftime("%Y-%m-%d %H:%M:%S")\<close> returns.\<close>

definition get_latest :: "string \<Rightarrow> latest \<Rightarrow> response" where
  "get_latest now store =
     (if \<not> truthy store then \<lparr>payload = ErrorBody ''No data yet'', status = 503\<rparr>
      else \<lparr>payload = LatestBody now (py_len store) store, status = 200\<rparr>)"

section \<open>Successive writes\<close>

text \<open>
  Successive calls of the writer on the same two paths, each with the operating system's
  answers and the snapshot it is given.
\<close>

fun save_all ::
  "(latest \<Rightarrow> pystr) \<Rightarrow> (os_env \<times> latest) list \<Rightarrow> disk \<Rightarrow> string \<Rightarrow> string option \<Rightarrow> disk" where
  "save_all dump [] d path backup_path = d"
| "save_all dump (w # ws) d path backup_path =
     save_all dump ws (fst (save_json_atomic dump (fst w) d path (snd w) backup_path))
       path backup_path"

text \<open>
  A call that completes: the snapshot is non-empty, \<^verbatim>\<open>mkstemp\<close> gives the temporary file a
  name of its own, the dump and the rename succeed. The copy to the backup may fail.
\<close>

definition completed_write :: "string \<Rightarrow> string \<Rightarrow> os_env \<times> latest \<Rightarrow> bool" where
  "completed_write path b w =
     (truthy (snd w) \<and>
      (case mkstemp_name (fst w) of None \<Rightarrow> False | Some tmp \<Rightarrow> tmp \<noteq> path \<and> tmp \<noteq> b) \<and>
      dump_result (fst w) = DumpOk \<and> replace_ok (fst w))"

section \<open>Kinds of passes\<close>

text \<open>
  A pass of \<^verbatim>\<open>scrape_loop\<close> without a non-empty extraction: the fetch raises, or the
  extractor raises or returns the empty list.
\<close>

definition no_success :: "(pystr \<Rightarrow> exn + pystr list) \<Rightarrow> int option \<Rightarrow> iter_env \<Rightarrow> bool" where
  "no_success sel mx env =
     (case page_source env of
        None \<Rightarrow> True
      | Some html \<Rightarrow>
          (case parse_market_from_html sel mx html of Inl e \<Rightarrow> True | Inr rs \<Rightarrow> rs = []))"

text \<open>
  A pass of \<^verbatim>\<open>scrape_loop\<close> that fails and goes through the whole exception handler: the
  fetch raises, and \<^verbatim>\<open>mkstemp\<close> does not raise in the handler's writer call.
\<close>

definition plain_failure :: "iter_env \<Rightarrow> bool" where
  "plain_failure env = (page_source env = None \<and> mkstemp_name (handler_os env) \<noteq> None)"

section \<open>Example inputs\<close>

text \<open>Answers of the operating system: all well; no temporary file; the rename fails;
  the backup copy fails half way; the backup copy fails before it writes.\<close>

definition os_ok :: "string \<Rightarrow> os_env" where
  "os_ok tmp = \<lparr>mkstemp_name = Some tmp, dump_result = DumpOk, copy_result = CopyOk,
                replace_ok = True, remove_ok = True\<rparr>"

definition os_no_temp :: os_env where
  "os_no_temp = \<lparr>mkstemp_name = None, dump_result = DumpOk, copy_result = CopyOk,
                 replace_ok = True, remove_ok = True\<rparr>"

definition os_no_replace :: "string \<Rightarrow> os_env" where
  "os_no_replace tmp = \<lparr>mkstemp_name = Some tmp, dump_result = DumpOk, copy_result = CopyOk,
                        replace_ok = False, remove_ok = True\<rparr>"

definition os_no_copy :: "string \<Rightarrow> os_env" where
  "os_no_copy tmp = \<lparr>mkstemp_name = Some tmp, dump_result = DumpOk,
                     copy_result = CopyRaises (Some (py ''BT'')), replace_ok = True,
                     remove_ok = True\<rparr>"

definition os_copy_refused :: "string \<Rightarrow> os_env" where
  "os_copy_refused tmp = \<lparr>mkstemp_name = Some tmp, dump_result = DumpOk,
                          copy_result = CopyRaises None, replace_ok = True,
                          remove_ok = True\<rparr>"

text \<open>Rows, the texts of table rows, and a disk that already holds a primary file.\<close>

definition btc :: row where
  "btc = \<lparr>pair = py ''BTC'', price = py ''50000'', change_24h = py ''+1%''\<rparr>"

definition eth :: row where
  "eth = \<lparr>pair = py ''ETH'', price = py ''3000'', change_24h = py ''-2%''\<rparr>"

definition btc_page :: "pystr list" where
  "btc_page = [py ''BTC\<newline>50000\<newline>+1%'']"

definition two_rows :: "pystr list" where
  "two_rows =
     [py ''BTC\<newline>  50000 \<newline>\<newline>+1%'', py ''ETH\<newline>3000\<newline>-2%\<newline>extra'']"

text \<open>
  The text of a row whose three lines are padded with U+00A0, U+2003 and U+0085, and with
  a line between them that holds U+00A0 only.
\<close>

definition padded_row :: pystr where
  "padded_row =
     [160] @ py ''BTC'' @ [8195, 10, 160, 10] @ py ''50000'' @ [133, 10] @ py ''+1%'' @ [160]"

definition old_disk :: disk where
  "old_disk = Map.empty(''crypto_data.json'' \<mapsto> py ''old'')"

text \<open>A pass in which \<^verbatim>\<open>driver.page_source\<close> raises, and a pass in which the page is
  fetched; the arguments are the operating system's answers to the writer.\<close>

definition fetch_fails :: "os_env \<Rightarrow> iter_env" where
  "fetch_fails h = \<lparr>create_raises = False, get_raises = False, page_source = None,
                    body_os = os_ok ''tmp0'', handler_os = h\<rparr>"

definition fetch_ok :: "os_env \<Rightarrow> os_env \<Rightarrow> iter_env" where
  "fetch_ok b h = \<lparr>create_raises = False, get_raises = False, page_source = Some (py ''<html>''),
                   body_os = b, handler_os = h\<rparr>"

text \<open>A state of the loop that holds one row; \<open>n\<close> is the backoff.\<close>

definition holding_btc :: "enat \<Rightarrow> loop_state" where
  "holding_btc n = \<lparr>latest_data = Rows [btc], driver = True, backoff = n, files = old_disk\<rparr>"

section \<open>Properties of the extractor\<close>

lemma make_row_ok:
  "3 \<le> length parts \<Longrightarrow>
     make_row parts = Inr \<lparr>pair = parts ! 0, price = parts ! 1, change_24h = parts ! 2\<rparr>"
  unfolding make_row_def py_get_def by auto

lemma rows_loop_step:
  "rows_loop mx (raw # rest) acc =
     (let acc' = (if 3 \<le> length (row_parts raw)
                  then acc @ [\<lparr>pair = row_parts raw ! 0, price = row_parts raw ! 1,
                               change_24h = row_parts raw ! 2\<rparr>]
                  else acc)
      in if cap_reached mx (length acc') then Inr acc' else rows_loop mx rest acc')"
  by (simp add: Let_def make_row_ok)

lemma rows_loop_total: "\<exists>rs. rows_loop mx raws acc = Inr rs"
proof (induction raws arbitrary: acc)
  case Nil
  show ?case by simp
next
  case (Cons raw rest)
  show ?case unfolding rows_loop_step Let_def using Cons.IH by auto
qed

lemma rows_loop_no_match:
  "\<forall>raw \<in> set raws. length (row_parts raw) < 3 \<Longrightarrow> rows_loop mx raws acc = Inr acc"
proof (induction raws arbitrary: acc)
  case Nil
  show ?case by simp
next
  case (Cons raw rest)
  then show ?case unfolding rows_loop_step Let_def by auto
qed

lemma rows_loop_cap:
  "int (length acc) < n \<Longrightarrow> rows_loop (Some n) raws acc = Inr rs \<Longrightarrow> int (length rs) \<le> n"
proof (induction raws arbitrary: acc)
  case Nil
  then show ?case by simp
next
  case (Cons raw rest)
  define acc' where "acc' = (if 3 \<le> length (row_parts raw)
                  then acc @ [\<lparr>pair = row_parts raw ! 0, price = row_parts raw ! 1,
                               change_24h = row_parts raw ! 2\<rparr>]
                  else acc)"
  have len: "int (length acc') \<le> n" using Cons.prems(1) by (simp add: acc'_def)
  have eq: "rows_loop (Some n) (raw # rest) acc =
     (if cap_reached (Some n) (length acc') then Inr acc' else rows_loop (Some n) rest acc')"
    unfolding rows_loop_step acc'_def Let_def ..
  show ?case
  proof (cases "cap_reached (Some n) (length acc')")
    case True
    with eq Cons.prems(2) have "rs = acc'" by simp
    with len show ?thesis by simp
  next
    case False
    with len Cons.prems(1) have "int (length acc') < n" by (auto simp: cap_reached_def)
    moreover from eq False Cons.prems(2) have "rows_loop (Some n) rest acc' = Inr rs" by simp
    ultimately show ?thesis by (rule Cons.IH)
  qed
qed

lemma row_parts_padded: "row_parts padded_row = [py ''BTC'', py ''50000'', py ''+1%'']"
  by (simp add: padded_row_def row_parts_def strip_def isspace_def py_def)

text \<open>
  Claim C9, as the code has it. Lines 110 to 114 call the library with no \<^verbatim>\<open>try\<close>
  around them: when the library raises on the markup, \<^verbatim>\<open>parse_market_from_html\<close> raises
  the same exception. When the library returns, whatever it found and whatever
  \<^verbatim>\<open>MAX_ROWS\<close> is, the function returns a list of rows and raises nothing of its own: the
  reads \<^verbatim>\<open>parts[0]\<close> to \<^verbatim>\<open>parts[2]\<close> are guarded by \<^verbatim>\<open>len(parts) >= 3\<close>. When no selected
  element has three non-blank lines (in particular when nothing is selected) the list is
  empty. When \<^verbatim>\<open>MAX_ROWS\<close> is a positive integer the list has at most that many rows. For
  \<^verbatim>\<open>MAX_ROWS = 0\<close> the test \<^verbatim>\<open>if MAX_ROWS and ...\<close> is false and there is no bound.
\<close>

theorem extractor_total_and_capped:
  "(\<forall>e. select_texts html = Inl e \<longrightarrow>
      parse_market_from_html select_texts max_rows html = Inl e) \<and>
   (\<forall>texts. select_texts html = Inr texts \<longrightarrow>
      (\<exists>rs. parse_market_from_html select_texts max_rows html = Inr rs
        \<and> ((\<forall>raw \<in> set texts. length (row_parts raw) < 3) \<longrightarrow> rs = [])
        \<and> (\<forall>n. max_rows = Some n \<and> 0 < n \<longrightarrow> int (length rs) \<le> n)))"
proof (intro conjI allI impI)
  fix e assume "select_texts html = Inl e"
  then show "parse_market_from_html select_texts max_rows html = Inl e"
    by (simp add: parse_market_from_html_def)
next
  fix texts assume lib: "select_texts html = Inr texts"
  obtain rs where rs: "rows_loop max_rows texts [] = Inr rs"
    using rows_loop_total by blast
  have "(\<forall>raw \<in> set texts. length (row_parts raw) < 3) \<longrightarrow> rs = []"
    using rs rows_loop_no_match [of texts max_rows "[]"] by auto
  moreover have "\<forall>n. max_rows = Some n \<and> 0 < n \<longrightarrow> int (length rs) \<le> n"
    using rs rows_loop_cap [of "[]" _ texts rs] by auto
  ultimately show "\<exists>rs. parse_market_from_html select_texts max_rows html = Inr rs
        \<and> ((\<forall>raw \<in> set texts. length (row_parts raw) < 3) \<longrightarrow> rs = [])
        \<and> (\<forall>n. max_rows = Some n \<and> 0 < n \<longrightarrow> int (length rs) \<le> n)"
    using rs lib by (simp add: parse_market_from_html_def)
qed

text \<open>
  The theorem at two rows and a cap of one, at a page whose only selected element has one
  line, and at markup that the library rejects.
\<close>

theorem extractor_total_and_capped_witness:
  "(\<exists>rs. parse_market_from_html (fixed_page two_rows) (Some 1) (py ''<html>'') = Inr rs
         \<and> int (length rs) \<le> 1) \<and>
   parse_market_from_html (fixed_page [py ''loading'']) None (py ''<html>'') = Inr [] \<and>
   parse_market_from_html rejecting_page None (py ''<![bad[x]]>'') = Inl ParserRejectedMarkup"
proof -
  have short: "\<forall>raw \<in> set [py ''loading'']. length (row_parts raw) < 3"
    by (simp add: row_parts_def strip_def isspace_def py_def)
  show ?thesis
    using extractor_total_and_capped [of "fixed_page two_rows" "py ''<html>''" "Some 1"]
      extractor_total_and_capped [of "fixed_page [py ''loading'']" "py ''<html>''" None]
      extractor_total_and_capped [of rejecting_page "py ''<![bad[x]]>''" None] short
    by (auto simp: fixed_page_def rejecting_page_def)
qed

text \<open>
  Claim C9 as stated fails twice. It has the extractor return a list for every markup:
  on markup that the library rejects, the exception leaves the function, which has no
  handler. And it has the cap hold for every integer: with \<^verbatim>\<open>MAX_ROWS = 0\<close> two rows are
  returned, more than the cap.
\<close>

theorem extractor_cap_zero_counterexample:
  "parse_market_from_html rejecting_page None (py ''<![bad[x]]>'') = Inl ParserRejectedMarkup \<and>
   parse_market_from_html (fixed_page two_rows) (Some 0) (py ''<html>'') = Inr [btc, eth] \<and>
   \<not> int (length [btc, eth]) \<le> 0"
  by (simp add: parse_market_from_html_def fixed_page_def rejecting_page_def two_rows_def
      row_parts_def strip_def isspace_def make_row_def py_get_def cap_reached_def btc_def
      eth_def py_def)

section \<open>Properties of the durable writer\<close>

lemma backup_step_other: "bp \<noteq> Some q \<Longrightarrow> backup_step env path bp d q = d q"
  by (auto simp: backup_step_def split: option.splits copy_outcome.splits)

lemma backup_step_primary: "backup_step env path bp d path = d path"
  by (auto simp: backup_step_def split: option.splits copy_outcome.splits)

lemma backup_step_absent: "d path = None \<Longrightarrow> backup_step env path bp d = d"
  by (auto simp: backup_step_def split: option.splits copy_outcome.splits)

lemma cleanup_other: "q \<noteq> tmp \<Longrightarrow> cleanup env tmp d q = d q"
  by (simp add: cleanup_def)

lemma cleanup_removed: "remove_ok env \<Longrightarrow> cleanup env tmp d tmp = None"
  by (simp add: cleanup_def)

lemma save_exit_Raised:
  "(snd (save_json_atomic dump env d path data bp) = Raised) =
     (truthy data \<and> mkstemp_name env = None)"
  by (auto simp: save_json_atomic_def save_json_states_def Let_def
      split: option.splits dump_outcome.splits)

text \<open>
  Claim C3. Called with an empty snapshot, the writer returns at once: the disk goes
  through no other state than the one it was in, so no temporary file is made, no backup
  is written and the primary file is as it was.
\<close>

theorem empty_snapshot_noop:
  "\<not> truthy data \<Longrightarrow>
     save_json_states dump env d path data backup_path = ([d], Skipped) \<and>
     save_json_atomic dump env d path data backup_path = (d, Skipped)"
  by (simp add: save_json_states_def save_json_atomic_def)

theorem empty_snapshot_noop_witness:
  "save_json_states line_dump (os_ok ''tmp1'') old_disk JSON_FILE (Rows []) (Some BACKUP_FILE)
     = ([old_disk], Skipped) \<and>
   save_json_atomic line_dump (os_ok ''tmp1'') old_disk JSON_FILE (Rows []) (Some BACKUP_FILE)
     = (old_disk, Skipped)"
  using empty_snapshot_noop [of "Rows []" line_dump "os_ok ''tmp1''" old_disk JSON_FILE
      "Some BACKUP_FILE"]
  by simp

text \<open>
  Claim C10. When no primary file exists at the call, every state the disk goes through,
  the last one included, has the backup path as it was: line 70 skips the copy. (The
  backup path is not the primary path, and the temporary file has a name of its own.)
\<close>

theorem first_write_leaves_backup:
  assumes "d path = None" and "fresh_temp env d path (Some b)" and "b \<noteq> path"
  shows "\<forall>s \<in> set (fst (save_json_states dump env d path data (Some b))). s b = d b"
  using assms
  by (auto simp: save_json_states_def fresh_temp_def Let_def backup_step_absent cleanup_other
      split: option.splits dump_outcome.splits)

theorem first_write_leaves_backup_witness:
  "last (fst (save_json_states line_dump (os_ok ''tmp1'') Map.empty JSON_FILE (Rows [btc])
            (Some BACKUP_FILE))) BACKUP_FILE = None \<and>
   last (fst (save_json_states line_dump (os_ok ''tmp1'') Map.empty JSON_FILE (Rows [btc])
            (Some BACKUP_FILE))) JSON_FILE = Some (py ''BTC,50000,+1%;'')"
proof -
  have "\<forall>s \<in> set (fst (save_json_states line_dump (os_ok ''tmp1'') Map.empty JSON_FILE
            (Rows [btc]) (Some BACKUP_FILE))). s BACKUP_FILE = Map.empty BACKUP_FILE"
    by (rule first_write_leaves_backup)
      (simp_all add: fresh_temp_def os_ok_def JSON_FILE_def BACKUP_FILE_def)
  then show ?thesis
    by (simp add: save_json_states_def os_ok_def Let_def backup_step_def JSON_FILE_def
        BACKUP_FILE_def btc_def py_def)
qed

text \<open>
  Claim C2, as the code has it, for a non-empty snapshot and a temporary file with a name
  of its own. In every state in which a crash before the rename can leave the disk, the
  primary file is as it was before the call (absent if it was absent). When
  \<^verbatim>\<open>mkstemp\<close> raises, the disk is untouched. When a later step raises, the primary file is
  as it was and, if the \<^verbatim>\<open>os.remove\<close> of the clean-up succeeds, the temporary file is gone.
  When the rename is done, the primary file holds exactly the serialized snapshot.
\<close>

theorem writer_atomicity:
  assumes "truthy data" and "fresh_temp env d path backup_path"
  shows "(\<forall>s \<in> set (crash_states dump env d path data backup_path). s path = d path) \<and>
         (snd (save_json_atomic dump env d path data backup_path) = Raised \<longrightarrow>
            fst (save_json_atomic dump env d path data backup_path) = d) \<and>
         (snd (save_json_atomic dump env d path data backup_path) = Failed \<and> remove_ok env \<longrightarrow>
            fst (save_json_atomic dump env d path data backup_path) path = d path \<and>
            (\<forall>tmp. mkstemp_name env = Some tmp \<longrightarrow>
               fst (save_json_atomic dump env d path data backup_path) tmp = None)) \<and>
         (snd (save_json_atomic dump env d path data backup_path) = Written \<longrightarrow>
            fst (save_json_atomic dump env d path data backup_path) path = Some (dump data))"
proof (cases "mkstemp_name env")
  case None
  with assms show ?thesis
    by (simp add: save_json_states_def save_json_atomic_def crash_states_def)
next
  case (Some tmp)
  with assms(2) have fresh: "d tmp = None" "tmp \<noteq> path" "backup_path \<noteq> Some tmp"
    by (simp_all add: fresh_temp_def)
  show ?thesis
  proof (cases "dump_result env")
    case (DumpRaises part)
    with Some assms(1) fresh show ?thesis
      by (simp add: save_json_states_def save_json_atomic_def crash_states_def Let_def
          cleanup_other cleanup_removed)
  next
    case DumpOk
    with Some assms(1) fresh show ?thesis
      by (simp add: save_json_states_def save_json_atomic_def crash_states_def Let_def
          cleanup_other cleanup_removed backup_step_primary backup_step_other)
  qed
qed

text \<open>
  The theorem on a disk that holds an old primary file: when the rename fails the old file
  stays and the temporary file is removed; when \<^verbatim>\<open>mkstemp\<close> raises nothing changes; when
  all goes well the primary file is the new snapshot.
\<close>

theorem writer_atomicity_witness:
  "fst (save_json_atomic line_dump (os_no_replace ''tmp1'') old_disk JSON_FILE (Rows [btc])
          (Some BACKUP_FILE)) JSON_FILE = Some (py ''old'') \<and>
   fst (save_json_atomic line_dump (os_no_replace ''tmp1'') old_disk JSON_FILE (Rows [btc])
          (Some BACKUP_FILE)) ''tmp1'' = None \<and>
   fst (save_json_atomic line_dump os_no_temp old_disk JSON_FILE (Rows [btc])
          (Some BACKUP_FILE)) = old_disk \<and>
   fst (save_json_atomic line_dump (os_ok ''tmp1'') old_disk JSON_FILE (Rows [btc])
          (Some BACKUP_FILE)) JSON_FILE = Some (py ''BTC,50000,+1%;'')"
proof -
  have t: "truthy (Rows [btc])" by simp
  have f1: "fresh_temp (os_no_replace ''tmp1'') old_disk JSON_FILE (Some BACKUP_FILE)"
    by (simp add: fresh_temp_def os_no_replace_def old_disk_def JSON_FILE_def BACKUP_FILE_def)
  have f2: "fresh_temp os_no_temp old_disk JSON_FILE (Some BACKUP_FILE)"
    by (simp add: fresh_temp_def os_no_temp_def)
  have f3: "fresh_temp (os_ok ''tmp1'') old_disk JSON_FILE (Some BACKUP_FILE)"
    by (simp add: fresh_temp_def os_ok_def old_disk_def JSON_FILE_def BACKUP_FILE_def)
  have x1: "snd (save_json_atomic line_dump (os_no_replace ''tmp1'') old_disk JSON_FILE
                   (Rows [btc]) (Some BACKUP_FILE)) = Failed"
    by (simp add: save_json_atomic_def save_json_states_def os_no_replace_def Let_def)
  have x2: "snd (save_json_atomic line_dump os_no_temp old_disk JSON_FILE (Rows [btc])
                   (Some BACKUP_FILE)) = Raised"
    by (simp add: save_exit_Raised os_no_temp_def)
  have x3: "snd (save_json_atomic line_dump (os_ok ''tmp1'') old_disk JSON_FILE (Rows [btc])
                   (Some BACKUP_FILE)) = Written"
    by (simp add: save_json_atomic_def save_json_states_def os_ok_def Let_def)
  show ?thesis
    using writer_atomicity [OF t f1, of line_dump] writer_atomicity [OF t f2, of line_dump]
      writer_atomicity [OF t f3, of line_dump] x1 x2 x3
    by (simp add: os_no_replace_def os_ok_def old_disk_def JSON_FILE_def btc_def py_def)
qed

text \<open>
  Claim C2 as stated fails for a crash: it has the temporary file removed after every
  failure before the rename, a crash included. After a crash that comes when the temporary
  file has been written (the third state of the disk), the primary file is as it was, and
  the temporary file is on the disk with the new snapshot in it: no code runs to remove it.
\<close>

theorem writer_crash_counterexample:
  "(crash_states line_dump (os_ok ''tmp1'') old_disk JSON_FILE (Rows [btc])
      (Some BACKUP_FILE) ! 2) JSON_FILE = Some (py ''old'') \<and>
   (crash_states line_dump (os_ok ''tmp1'') old_disk JSON_FILE (Rows [btc])
      (Some BACKUP_FILE) ! 2) ''tmp1'' = Some (py ''BTC,50000,+1%;'')"
  by (simp add: crash_states_def save_json_states_def os_ok_def Let_def old_disk_def
      JSON_FILE_def btc_def py_def)

section \<open>Successive writes and the backup\<close>

lemma written_primary:
  assumes "truthy data" and "mkstemp_name env = Some tmp" and "tmp \<noteq> path"
    and "bp \<noteq> Some tmp" and "dump_result env = DumpOk" and "replace_ok env"
  shows "snd (save_json_atomic dump env d path data bp) = Written \<and>
         fst (save_json_atomic dump env d path data bp) path = Some (dump data)"
  using assms
  by (simp add: save_json_atomic_def save_json_states_def Let_def backup_step_other)

lemma completed_write_primary:
  "completed_write path b (env, data) \<Longrightarrow>
     snd (save_json_atomic dump env d path data (Some b)) = Written \<and>
     fst (save_json_atomic dump env d path data (Some b)) path = Some (dump data)"
  by (auto simp: completed_write_def save_json_atomic_def save_json_states_def Let_def
      backup_step_other split: option.splits)

lemma completed_write_backup:
  "completed_write path b (env, data) \<Longrightarrow> copy_result env = CopyOk \<Longrightarrow> b \<noteq> path \<Longrightarrow>
     b \<noteq> [] \<Longrightarrow> d path = Some old \<Longrightarrow>
     fst (save_json_atomic dump env d path data (Some b)) b = Some old"
  by (auto simp: completed_write_def save_json_atomic_def save_json_states_def Let_def
      backup_step_def split: option.splits)

lemma save_all_snoc:
  "save_all dump (ws @ [w]) d path bp =
     fst (save_json_atomic dump (fst w) (save_all dump ws d path bp) path (snd w) bp)"
  by (induction ws arbitrary: d) simp_all

lemma save_all_primary:
  "ws \<noteq> [] \<Longrightarrow> \<forall>w \<in> set ws. completed_write path b w \<Longrightarrow>
     save_all dump ws d path (Some b) path = Some (dump (snd (last ws)))"
proof (induction ws rule: rev_induct)
  case Nil
  then show ?case by simp
next
  case (snoc w ws)
  then have "completed_write path b (fst w, snd w)" by simp
  then show ?case by (simp add: save_all_snoc completed_write_primary)
qed

lemma save_all_backup:
  assumes "2 \<le> length ws" and "\<forall>w \<in> set ws. completed_write path b w"
    and "copy_result (fst (last ws)) = CopyOk" and "b \<noteq> path" and "b \<noteq> []"
  shows "save_all dump ws d path (Some b) b = Some (dump (snd (ws ! (length ws - 2))))"
proof (cases ws rule: rev_cases)
  case Nil
  with assms(1) show ?thesis by simp
next
  case (snoc us w)
  with assms(1) have us: "us \<noteq> []" by auto
  from snoc assms(2) have gu: "\<forall>u \<in> set us. completed_write path b u"
    and gw: "completed_write path b (fst w, snd w)"
    by simp_all
  from snoc assms(3) have cw: "copy_result (fst w) = CopyOk" by simp
  have prim: "save_all dump us d path (Some b) path = Some (dump (snd (last us)))"
    using us gu by (rule save_all_primary)
  have idx: "ws ! (length ws - 2) = last us"
    using snoc us by (simp add: nth_append last_conv_nth)
  have "save_all dump ws d path (Some b) b = Some (dump (snd (last us)))"
    unfolding snoc save_all_snoc using gw cw assms(4,5) prim by (rule completed_write_backup)
  with idx show ?thesis by simp
qed

text \<open>
  Claim C4, as the code has it, for a backup path that is given and is not the primary
  path. After two or more writes of non-empty snapshots that all complete the rename, if
  the backup copy of the last write succeeded, the backup file holds the serialized
  snapshot written just before the last one, and the primary file the last one; the
  copies of the earlier writes may have failed. In one completed write over an existing
  primary file whose copy succeeds, the backup receives what the primary held before the
  rename. And whatever happens to the copy (\<open>copy_result\<close> is not constrained in the third
  part), a write whose other steps succeed ends with the rename done and the primary file
  holding the new snapshot.
\<close>

theorem backup_correctness:
  assumes "b \<noteq> path" and "b \<noteq> []"
  shows "(2 \<le> length ws \<and> (\<forall>w \<in> set ws. completed_write path b w) \<and>
          copy_result (fst (last ws)) = CopyOk \<longrightarrow>
            save_all dump ws d path (Some b) b = Some (dump (snd (ws ! (length ws - 2)))) \<and>
            save_all dump ws d path (Some b) path = Some (dump (snd (last ws)))) \<and>
         (completed_write path b (env, data) \<and> copy_result env = CopyOk \<and>
          d path = Some old \<longrightarrow>
            fst (save_json_atomic dump env d path data (Some b)) b = Some old) \<and>
         (truthy data \<and> mkstemp_name env = Some tmp \<and> tmp \<noteq> path \<and> tmp \<noteq> b \<and>
          dump_result env = DumpOk \<and> replace_ok env \<longrightarrow>
            snd (save_json_atomic dump env d path data (Some b)) = Written \<and>
            fst (save_json_atomic dump env d path data (Some b)) path = Some (dump data))"
proof -
  have "2 \<le> length ws \<and> (\<forall>w \<in> set ws. completed_write path b w) \<and>
          copy_result (fst (last ws)) = CopyOk \<longrightarrow>
            save_all dump ws d path (Some b) b = Some (dump (snd (ws ! (length ws - 2)))) \<and>
            save_all dump ws d path (Some b) path = Some (dump (snd (last ws)))"
  proof
    assume h: "2 \<le> length ws \<and> (\<forall>w \<in> set ws. completed_write path b w) \<and>
          copy_result (fst (last ws)) = CopyOk"
    then have "ws \<noteq> []" by auto
    with h show "save_all dump ws d path (Some b) b = Some (dump (snd (ws ! (length ws - 2)))) \<and>
            save_all dump ws d path (Some b) path = Some (dump (snd (last ws)))"
      using save_all_backup [of ws path b dump d] save_all_primary [of ws path b dump d] assms
      by simp
  qed
  moreover have "completed_write path b (env, data) \<and> copy_result env = CopyOk \<and>
          d path = Some old \<longrightarrow>
            fst (save_json_atomic dump env d path data (Some b)) b = Some old"
    using completed_write_backup assms by blast
  moreover have "truthy data \<and> mkstemp_name env = Some tmp \<and> tmp \<noteq> path \<and> tmp \<noteq> b \<and>
          dump_result env = DumpOk \<and> replace_ok env \<longrightarrow>
            snd (save_json_atomic dump env d path data (Some b)) = Written \<and>
            fst (save_json_atomic dump env d path data (Some b)) path = Some (dump data)"
    using written_primary [of data env tmp path "Some b" dump d] by auto
  ultimately show ?thesis by blast
qed

text \<open>
  The theorem at three writes on an empty disk, the copy of the second one failing half
  way; at one write over an old primary file; and at a write whose backup copy fails half
  way.
\<close>

theorem backup_correctness_witness:
  "save_all line_dump
     [(os_ok ''tmp1'', Rows [btc]), (os_no_copy ''tmp2'', Rows [eth]),
      (os_ok ''tmp3'', Rows [btc, eth])]
     Map.empty JSON_FILE (Some BACKUP_FILE) BACKUP_FILE = Some (py ''ETH,3000,-2%;'') \<and>
   save_all line_dump
     [(os_ok ''tmp1'', Rows [btc]), (os_no_copy ''tmp2'', Rows [eth]),
      (os_ok ''tmp3'', Rows [btc, eth])]
     Map.empty JSON_FILE (Some BACKUP_FILE) JSON_FILE
       = Some (py ''BTC,50000,+1%;ETH,3000,-2%;'') \<and>
   fst (save_json_atomic line_dump (os_ok ''tmp1'') old_disk JSON_FILE (Rows [btc])
          (Some BACKUP_FILE)) BACKUP_FILE = Some (py ''old'') \<and>
   snd (save_json_atomic line_dump (os_no_copy ''tmp1'') old_disk JSON_FILE (Rows [btc])
          (Some BACKUP_FILE)) = Written \<and>
   fst (save_json_atomic line_dump (os_no_copy ''tmp1'') old_disk JSON_FILE (Rows [btc])
          (Some BACKUP_FILE)) JSON_FILE = Some (py ''BTC,50000,+1%;'')"
proof -
  have ne: "BACKUP_FILE \<noteq> JSON_FILE" "BACKUP_FILE \<noteq> []"
    by (simp_all add: JSON_FILE_def BACKUP_FILE_def)
  have done_ok: "\<And>t data. truthy data \<Longrightarrow> t \<noteq> JSON_FILE \<Longrightarrow> t \<noteq> BACKUP_FILE \<Longrightarrow>
      completed_write JSON_FILE BACKUP_FILE (os_ok t, data)"
    by (simp add: completed_write_def os_ok_def)
  have done_nc: "\<And>t data. truthy data \<Longrightarrow> t \<noteq> JSON_FILE \<Longrightarrow> t \<noteq> BACKUP_FILE \<Longrightarrow>
      completed_write JSON_FILE BACKUP_FILE (os_no_copy t, data)"
    by (simp add: completed_write_def os_no_copy_def)
  have names: "''tmp1'' \<noteq> JSON_FILE" "''tmp1'' \<noteq> BACKUP_FILE" "''tmp2'' \<noteq> JSON_FILE"
    "''tmp2'' \<noteq> BACKUP_FILE" "''tmp3'' \<noteq> JSON_FILE" "''tmp3'' \<noteq> BACKUP_FILE"
    by (simp_all add: JSON_FILE_def BACKUP_FILE_def)
  have old: "old_disk JSON_FILE = Some (py ''old'')" by (simp add: old_disk_def JSON_FILE_def)
  have ok: "copy_result (os_ok ''tmp1'') = CopyOk" "copy_result (os_ok ''tmp3'') = CopyOk"
    by (simp_all add: os_ok_def)
  have nc: "mkstemp_name (os_no_copy ''tmp1'') = Some ''tmp1''"
    "dump_result (os_no_copy ''tmp1'') = DumpOk" "replace_ok (os_no_copy ''tmp1'')"
    by (simp_all add: os_no_copy_def)
  show ?thesis
    using backup_correctness [OF ne, of
        "[(os_ok ''tmp1'', Rows [btc]), (os_no_copy ''tmp2'', Rows [eth]),
          (os_ok ''tmp3'', Rows [btc, eth])]"
        line_dump Map.empty "os_ok ''tmp1''" "Rows [btc]" "py ''old''" "''tmp1''"]
      backup_correctness [OF ne, of "[]" line_dump old_disk "os_ok ''tmp1''" "Rows [btc]"
        "py ''old''" "''tmp1''"]
      backup_correctness [OF ne, of "[]" line_dump old_disk "os_no_copy ''tmp1''" "Rows [btc]"
        "py ''old''" "''tmp1''"]
      done_ok done_nc names old ok nc
    by (simp add: btc_def eth_def py_def)
qed

text \<open>
  Claim C4 as stated fails when the backup copy of the last write fails, which the claim
  itself allows. Two writes on an empty disk both complete the rename; the copy of the
  second one raises half way and leaves two characters in the backup file: the backup is
  not the snapshot written before the last one. When the copy raises before it writes, the
  backup file of a third write still holds the first snapshot.
\<close>

theorem backup_stale_counterexample:
  "snd (save_json_atomic line_dump (os_ok ''tmp1'') Map.empty JSON_FILE (Rows [btc])
          (Some BACKUP_FILE)) = Written \<and>
   snd (save_json_atomic line_dump (os_no_copy ''tmp2'')
          (fst (save_json_atomic line_dump (os_ok ''tmp1'') Map.empty JSON_FILE (Rows [btc])
                  (Some BACKUP_FILE)))
          JSON_FILE (Rows [eth]) (Some BACKUP_FILE)) = Written \<and>
   save_all line_dump [(os_ok ''tmp1'', Rows [btc]), (os_no_copy ''tmp2'', Rows [eth])]
     Map.empty JSON_FILE (Some BACKUP_FILE) JSON_FILE = Some (line_dump (Rows [eth])) \<and>
   save_all line_dump [(os_ok ''tmp1'', Rows [btc]), (os_no_copy ''tmp2'', Rows [eth])]
     Map.empty JSON_FILE (Some BACKUP_FILE) BACKUP_FILE = Some (py ''BT'') \<and>
   line_dump (Rows [btc]) \<noteq> py ''BT'' \<and>
   save_all line_dump
     [(os_ok ''tmp1'', Rows [btc]), (os_ok ''tmp2'', Rows [eth]),
      (os_copy_refused ''tmp3'', Rows [btc, eth])]
     Map.empty JSON_FILE (Some BACKUP_FILE) BACKUP_FILE = Some (line_dump (Rows [btc])) \<and>
   line_dump (Rows [btc]) \<noteq> line_dump (Rows [eth])"
  by (simp add: save_json_atomic_def save_json_states_def os_ok_def os_no_copy_def
      os_copy_refused_def Let_def backup_step_def JSON_FILE_def BACKUP_FILE_def btc_def eth_def
      py_def)

section \<open>Properties of the loops and of the query\<close>

lemma handler_latest: "latest_data (snd (snd (handler dump env s))) = latest_data s"
  by (simp add: handler_def Let_def split: prod.splits)

lemma try_body_latest:
  "latest_data (snd (snd (try_body dump sel mx env s))) = latest_data s \<or>
   (\<exists>rs. rs \<noteq> [] \<and> parse_market_from_html sel mx (the (page_source env)) = Inr rs \<and>
      latest_data (snd (snd (try_body dump sel mx env s))) = Rows rs)"
  by (auto simp: try_body_def Let_def split: prod.splits option.splits sum.splits)

lemma iteration_latest:
  "latest_data (snd (snd (scrape_iteration dump sel mx env s))) = latest_data s \<or>
   (\<exists>rs. rs \<noteq> [] \<and> parse_market_from_html sel mx (the (page_source env)) = Inr rs \<and>
      latest_data (snd (snd (scrape_iteration dump sel mx env s))) = Rows rs)"
proof -
  obtain ev r s1 where tb: "try_body dump sel mx env s = (ev, r, s1)"
    by (cases "try_body dump sel mx env s") auto
  obtain ev' r' s2 where h: "handler dump env s1 = (ev', r', s2)"
    by (cases "handler dump env s1") auto
  have "latest_data s2 = latest_data s1" using handler_latest [of dump env s1] h by simp
  moreover have "latest_data (snd (snd (scrape_iteration dump sel mx env s))) =
      (if r then latest_data s2 else latest_data s1)"
    by (simp add: scrape_iteration_def tb h)
  ultimately have "latest_data (snd (snd (scrape_iteration dump sel mx env s))) = latest_data s1"
    by simp
  then show ?thesis using try_body_latest [of dump sel mx env s] tb by simp
qed

lemma iteration_truthy:
  "truthy (latest_data s) \<Longrightarrow>
     truthy (latest_data (snd (snd (scrape_iteration dump sel mx env s))))"
  using iteration_latest [of dump sel mx env s] by auto

lemma run_passes_truthy:
  "truthy (latest_data s) \<Longrightarrow> truthy (latest_data (run_passes dump sel mx ps s))"
proof (induction ps arbitrary: s)
  case Nil
  then show ?case by simp
next
  case (Cons p ps)
  show ?case
  proof (cases p)
    case (Scrape env)
    with Cons show ?thesis by (simp add: iteration_truthy)
  next
    case (Update nd)
    with Cons show ?thesis by (simp add: update_data_iteration_def)
  qed
qed

lemma scrape_loop_truthy:
  "truthy (latest_data s) \<Longrightarrow>
     truthy (latest_data (snd (snd (scrape_loop dump sel mx envs s))))"
proof (induction envs arbitrary: s)
  case Nil
  then show ?case by simp
next
  case (Cons env envs)
  obtain ev r s1 where it: "scrape_iteration dump sel mx env s = (ev, r, s1)"
    by (cases "scrape_iteration dump sel mx env s") auto
  have t1: "truthy (latest_data s1)"
    using iteration_truthy [OF Cons.prems, of dump sel mx env] it by simp
  show ?case
  proof (cases r)
    case None
    with it t1 Cons.IH [of s1] show ?thesis by (auto split: prod.splits)
  next
    case (Some e)
    with it t1 show ?thesis by simp
  qed
qed

text \<open>
  Claim C1. Once \<^verbatim>\<open>latest_data\<close> is non-empty it stays non-empty, through any passes of
  \<^verbatim>\<open>scrape_loop\<close> and \<^verbatim>\<open>update_data_loop\<close> in any order, and through any run of
  \<^verbatim>\<open>scrape_loop\<close> up to its end; and a pass of \<^verbatim>\<open>scrape_loop\<close> whose extraction is empty
  leaves \<^verbatim>\<open>latest_data\<close> as it was.
\<close>

theorem no_regress:
  "(truthy (latest_data s) \<longrightarrow> truthy (latest_data (run_passes dump sel mx ps s))) \<and>
   (truthy (latest_data s) \<longrightarrow>
      truthy (latest_data (snd (snd (scrape_loop dump sel mx envs s))))) \<and>
   (page_source env = Some html \<and> parse_market_from_html sel mx html = Inr [] \<longrightarrow>
      latest_data (snd (snd (scrape_iteration dump sel mx env s))) = latest_data s)"
  using run_passes_truthy [of s dump sel mx ps] scrape_loop_truthy [of s dump sel mx envs]
    iteration_latest [of dump sel mx env s]
  by auto

text \<open>
  The theorem from a state that holds one row, on a page from which nothing is extracted:
  a pass with an empty extraction, a pass of the other loop, a pass whose fetch fails.
\<close>

theorem no_regress_witness:
  "truthy (latest_data (run_passes line_dump (fixed_page []) None
      [Scrape (fetch_ok (os_ok ''tmp1'') (os_ok ''tmp2'')),
       Update \<lparr>timestamp = ''2024-01-01 00:00:00'', sample_price = 55000, volume = 1000\<rparr>,
       Scrape (fetch_fails (os_ok ''tmp3''))] (holding_btc 1))) \<and>
   truthy (latest_data (snd (snd (scrape_loop line_dump (fixed_page []) None
      [fetch_ok (os_ok ''tmp1'') (os_ok ''tmp2''), fetch_fails (os_ok ''tmp3'')]
      (holding_btc 1))))) \<and>
   latest_data (snd (snd (scrape_iteration line_dump (fixed_page []) None
      (fetch_ok (os_ok ''tmp1'') (os_ok ''tmp2'')) (holding_btc 1)))) = Rows [btc]"
proof -
  have t: "truthy (latest_data (holding_btc 1))" by (simp add: holding_btc_def)
  have p: "page_source (fetch_ok (os_ok ''tmp1'') (os_ok ''tmp2'')) = Some (py ''<html>'')"
    by (simp add: fetch_ok_def)
  have e: "parse_market_from_html (fixed_page []) None (py ''<html>'') = Inr []"
    by (simp add: parse_market_from_html_def fixed_page_def)
  show ?thesis
    using no_regress [of "holding_btc 1" line_dump "fixed_page []" None
        "[Scrape (fetch_ok (os_ok ''tmp1'') (os_ok ''tmp2'')),
          Update \<lparr>timestamp = ''2024-01-01 00:00:00'', sample_price = 55000, volume = 1000\<rparr>,
          Scrape (fetch_fails (os_ok ''tmp3''))]"
        "[fetch_ok (os_ok ''tmp1'') (os_ok ''tmp2''), fetch_fails (os_ok ''tmp3'')]"
        "fetch_ok (os_ok ''tmp1'') (os_ok ''tmp2'')" "py ''<html>''"] t p e
    by (simp add: holding_btc_def)
qed

text \<open>
  Claim C7. When \<^verbatim>\<open>latest_data\<close> is empty, \<^verbatim>\<open>GET /latest\<close> answers 503 with the error
  payload. Otherwise it answers 200 with the timestamp, the count \<^verbatim>\<open>len(latest_data)\<close> and
  \<^verbatim>\<open>latest_data\<close> itself as data; for a stored list of rows the count is the number of
  rows.
\<close>

theorem get_latest_contract:
  "(\<not> truthy store \<longrightarrow> status (get_latest now store) = 503 \<and>
       payload (get_latest now store) = ErrorBody ''No data yet'') \<and>
   (truthy store \<longrightarrow> status (get_latest now store) = 200 \<and>
       payload (get_latest now store) = LatestBody now (py_len store) store) \<and>
   (\<forall>rs. store = Rows rs \<and> rs \<noteq> [] \<longrightarrow>
       payload (get_latest now store) = LatestBody now (length rs) (Rows rs))"
  by (auto simp: get_latest_def)

theorem get_latest_contract_witness:
  "status (get_latest ''2024-01-01 00:00:00'' (Rows [])) = 503 \<and>
   payload (get_latest ''2024-01-01 00:00:00'' (Rows [])) = ErrorBody ''No data yet'' \<and>
   status (get_latest ''2024-01-01 00:00:00'' (Rows [btc])) = 200 \<and>
   payload (get_latest ''2024-01-01 00:00:00'' (Rows [btc])) =
     LatestBody ''2024-01-01 00:00:00'' 1 (Rows [btc])"
  using get_latest_contract [of "Rows []" "''2024-01-01 00:00:00''"]
    get_latest_contract [of "Rows [btc]" "''2024-01-01 00:00:00''"]
  by simp

lemma btc_page_parsed:
  "parse_market_from_html (fixed_page btc_page) None html = Inr [btc]"
  by (simp add: parse_market_from_html_def fixed_page_def btc_page_def row_parts_def strip_def
      isspace_def make_row_def py_get_def cap_reached_def btc_def py_def)

text \<open>
  An exception leaves a pass of \<^verbatim>\<open>scrape_loop\<close> only from the writer call of the
  exception handler, when \<^verbatim>\<open>mkstemp\<close> raises there and \<^verbatim>\<open>latest_data\<close> is non-empty.
\<close>

lemma iteration_escapes_only_from_handler:
  "fst (snd (scrape_iteration dump sel mx env s)) \<noteq> None \<Longrightarrow>
     mkstemp_name (handler_os env) = None \<and>
     truthy (latest_data (snd (snd (scrape_iteration dump sel mx env s))))"
  by (auto simp: scrape_iteration_def handler_def Let_def case_prod_beta save_exit_Raised
      split: if_splits)

text \<open>
  Claim C8 fails on the code. A pass in which the fetch raises while \<^verbatim>\<open>latest_data\<close> is
  non-empty calls the writer from the exception handler (line 191), outside any \<^verbatim>\<open>try\<close>;
  \<^verbatim>\<open>mkstemp\<close> (line 64) is outside the writer's own \<^verbatim>\<open>try\<close>, so when it raises the exception
  leaves the pass and the loop: the pass that was to follow never runs.
\<close>

theorem loop_escape:
  "fst (snd (scrape_iteration line_dump (fixed_page btc_page) None (fetch_fails os_no_temp)
       (holding_btc 1))) = Some OSError \<and>
   scrape_loop line_dump (fixed_page btc_page) None
       [fetch_fails os_no_temp, fetch_ok (os_ok ''tmp1'') (os_ok ''tmp2'')] (holding_btc 1)
     = ([LockAcquire, DurableWrite, LockRelease], Some OSError,
        (holding_btc 1)\<lparr>driver := False\<rparr>)"
  by (simp add: scrape_iteration_def try_body_def handler_def fetch_fails_def holding_btc_def
      Let_def save_json_atomic_def save_json_states_def os_no_temp_def)

text \<open>
  Claim C6 fails on the code. In a pass whose fetch raises while \<^verbatim>\<open>latest_data\<close> is
  non-empty, the exception handler calls the writer inside
  \<^verbatim>\<open>with latest_data_lock\<close> (lines 189 to 191): the write happens between taking and
  releasing the lock. The branch for an empty extraction (lines 161 to 164) copies under
  the lock, releases it and then writes.
\<close>

theorem write_under_lock:
  "fst (scrape_iteration line_dump (fixed_page btc_page) None (fetch_fails (os_ok ''tmp1''))
       (holding_btc 1)) = [LockAcquire, DurableWrite, LockRelease, BackoffSleep 1] \<and>
   \<not> writes_unlocked False
       (fst (scrape_iteration line_dump (fixed_page btc_page) None
          (fetch_fails (os_ok ''tmp1'')) (holding_btc 1))) \<and>
   fst (scrape_iteration line_dump (fixed_page []) None
       (fetch_ok (os_ok ''tmp1'') (os_ok ''tmp2'')) (holding_btc 1))
     = [LockAcquire, LockRelease, DurableWrite]"
  by (simp add: scrape_iteration_def try_body_def handler_def fetch_fails_def fetch_ok_def
      holding_btc_def Let_def case_prod_beta save_exit_Raised os_ok_def
      parse_market_from_html_def fixed_page_def)

subsection \<open>The backoff delays\<close>

text \<open>
  The delays of the handler's sleeps over a run of passes. Without a non-empty extraction
  in the run the delays never decrease and never exceed 30
  (\<open>backoff_delays_monotone\<close>); over passes that fail, from a backoff of 1, they are
  \<open>min (2 ^ i) 30\<close> (\<open>backoff_delays_from_floor\<close>); a pass with a non-empty extraction
  in which \<^verbatim>\<open>mkstemp\<close> does not raise sets the backoff to 1 (\<open>reset_to_floor\<close>).
\<close>

lemma delays_append: "delays (a @ b) = delays a @ delays b"
  by (induction a rule: delays.induct) simp_all

lemma float_double_ge: "b \<le> float_double b"
proof -
  have le: "b \<le> 2 * b" by (cases b) (simp_all add: numeral_eq_enat)
  show ?thesis
  proof (cases "2 * b < 2 ^ 1024")
    case True
    then have "float_double b = 2 * b" unfolding float_double_def by (rule if_P)
    with le show ?thesis by (simp only:)
  next
    case False
    then have "float_double b = \<infinity>" unfolding float_double_def by (rule if_not_P)
    then show ?thesis by (simp only: enat_ord_code)
  qed
qed

lemma two_power_enat: "(2::enat) ^ j = enat (2 ^ j)"
  by (induction j) (simp_all add: one_enat_def numeral_eq_enat)

lemma two_power_less: "((2::enat) ^ i < 2 ^ j) = (i < j)"
  unfolding two_power_enat
  by (simp only: enat_ord_simps power_strict_increasing_iff semiring_norm)

lemma float_double_power:
  "float_double (2 ^ j) = (if j < 1023 then 2 ^ Suc j else \<infinity>)"
proof -
  have eq: "(2::enat) * 2 ^ j = 2 ^ Suc j" by (simp only: power_Suc)
  have "(Suc j < 1024) = (j < 1023)" by arith
  then have "((2::enat) * 2 ^ j < 2 ^ 1024) = (j < 1023)"
    unfolding eq using two_power_less [of "Suc j" 1024] by (simp only:)
  then show ?thesis unfolding float_double_def eq [symmetric]
    by (simp only:)
qed

lemma float_double_infinity: "float_double \<infinity> = \<infinity>"
proof -
  have "\<not> (2 * \<infinity> < (2::enat) ^ 1024)"
    unfolding two_power_enat by (simp add: numeral_eq_enat del: power_numeral)
  then show ?thesis unfolding float_double_def by (rule if_not_P)
qed

lemma iteration_backoff:
  assumes "no_success sel mx env"
  shows "(delays (fst (scrape_iteration dump sel mx env s)) = [] \<and>
          backoff (snd (snd (scrape_iteration dump sel mx env s))) = backoff s) \<or>
         (delays (fst (scrape_iteration dump sel mx env s)) = [min (backoff s) 30] \<and>
          backoff (snd (snd (scrape_iteration dump sel mx env s))) = float_double (backoff s))"
  using assms
  by (auto simp: no_success_def scrape_iteration_def try_body_def handler_def Let_def
      case_prod_beta split: option.splits sum.splits)

lemma plain_failure_iteration:
  assumes "plain_failure env"
  shows "delays (fst (scrape_iteration dump sel mx env s)) = [min (backoff s) 30] \<and>
         backoff (snd (snd (scrape_iteration dump sel mx env s))) = float_double (backoff s) \<and>
         fst (snd (scrape_iteration dump sel mx env s)) = None"
  using assms
  by (auto simp: plain_failure_def scrape_iteration_def try_body_def handler_def Let_def
      case_prod_beta save_exit_Raised)


lemma backoff_delays_monotone:
  assumes "\<forall>env \<in> set envs. no_success sel mx env"
  shows "sorted (delays (fst (scrape_loop dump sel mx envs s))) \<and>
         (\<forall>t \<in> set (delays (fst (scrape_loop dump sel mx envs s))).
            min (backoff s) 30 \<le> t \<and> t \<le> 30)"
  using assms
proof (induction envs arbitrary: s)
  case Nil
  show ?case by simp
next
  case (Cons env envs)
  obtain ev r s1 where it: "scrape_iteration dump sel mx env s = (ev, r, s1)"
    by (cases "scrape_iteration dump sel mx env s") auto
  from Cons.prems have ns: "no_success sel mx env" by simp
  have step: "(delays ev = [] \<and> backoff s1 = backoff s) \<or>
      (delays ev = [min (backoff s) 30] \<and> backoff s1 = float_double (backoff s))"
    using iteration_backoff [OF ns, of dump s] it by simp
  then have grow: "min (backoff s) 30 \<le> min (backoff s1) 30"
    using float_double_ge [of "backoff s"] by (auto simp: min_def)
  have head: "sorted (delays ev) \<and> (\<forall>t \<in> set (delays ev). min (backoff s) 30 \<le> t \<and> t \<le> 30)"
    using step by auto
  show ?case
  proof (cases r)
    case (Some e)
    with it head show ?thesis by simp
  next
    case None
    obtain ev' r' s2 where rest: "scrape_loop dump sel mx envs s1 = (ev', r', s2)"
      by (cases "scrape_loop dump sel mx envs s1") auto
    from Cons.prems have "\<forall>env \<in> set envs. no_success sel mx env" by simp
    from Cons.IH [OF this, of s1] rest
    have tail: "sorted (delays ev')"
      "\<forall>t \<in> set (delays ev'). min (backoff s1) 30 \<le> t \<and> t \<le> 30" by simp_all
    have all: "fst (scrape_loop dump sel mx (env # envs) s) = ev @ ev'"
      using it None rest by simp
    have "\<forall>a \<in> set (delays ev). \<forall>b \<in> set (delays ev'). a \<le> b"
    proof (intro ballI)
      fix a b assume a: "a \<in> set (delays ev)" and b: "b \<in> set (delays ev')"
      from a step have "a = min (backoff s) 30" by auto
      with grow tail(2) b show "a \<le> b" by (metis order_trans)
    qed
    moreover have "\<forall>t \<in> set (delays ev'). min (backoff s) 30 \<le> t \<and> t \<le> 30"
      using tail(2) grow by (blast intro: order_trans)
    ultimately show ?thesis
      unfolding all delays_append using head tail(1) by (simp add: sorted_append ball_Un)
  qed
qed

lemma thirty_le_power: "4 < j \<Longrightarrow> (30::enat) \<le> 2 ^ j"
proof -
  assume "4 < j"
  then have "(2::nat) ^ 5 \<le> 2 ^ j" by (intro power_increasing) simp_all
  then have "(30::nat) \<le> 2 ^ j" by simp
  then show ?thesis unfolding two_power_enat by (simp add: numeral_eq_enat)
qed

lemma backoff_delays_doubling:
  assumes "\<forall>env \<in> set envs. plain_failure env"
    and "backoff s = 2 ^ j \<or> (backoff s = \<infinity> \<and> 1023 < j)"
  shows "delays (fst (scrape_loop dump sel mx envs s)) =
           map (\<lambda>i. min (2 ^ (j + i)) 30) [0..<length envs]"
  using assms
proof (induction envs arbitrary: s j)
  case Nil
  show ?case by simp
next
  case (Cons env envs)
  obtain ev r s1 where it: "scrape_iteration dump sel mx env s = (ev, r, s1)"
    by (cases "scrape_iteration dump sel mx env s") auto
  from Cons.prems(1) have pf: "plain_failure env" by simp
  from plain_failure_iteration [OF pf, of dump sel mx s] it
  have ev: "delays ev = [min (backoff s) 30]" and b1: "backoff s1 = float_double (backoff s)"
    and r: "r = None" by simp_all
  have first: "min (backoff s) 30 = min (2 ^ j) (30::enat)"
  proof (cases "backoff s = 2 ^ j")
    case True
    then show ?thesis by simp
  next
    case False
    with Cons.prems(2) have inf: "backoff s = \<infinity>" and j: "1023 < j" by simp_all
    from j have "(30::enat) \<le> 2 ^ j" by (intro thirty_le_power) simp
    with inf show ?thesis by (simp add: min_def)
  qed
  have inv: "backoff s1 = 2 ^ Suc j \<or> (backoff s1 = \<infinity> \<and> 1023 < Suc j)"
  proof (cases "backoff s = 2 ^ j")
    case True
    with b1 show ?thesis by (cases "j < 1023") (simp_all only: float_double_power if_True if_False, auto)
  next
    case False
    with Cons.prems(2) have "backoff s = \<infinity>" and "1023 < j" by simp_all
    with b1 show ?thesis by (simp add: float_double_infinity)
  qed
  obtain ev' r' s2 where rest: "scrape_loop dump sel mx envs s1 = (ev', r', s2)"
    by (cases "scrape_loop dump sel mx envs s1") auto
  from Cons.prems(1) have "\<forall>env \<in> set envs. plain_failure env" by simp
  from Cons.IH [OF this inv] rest
  have tail: "delays ev' = map (\<lambda>i. min (2 ^ (Suc j + i)) 30) [0..<length envs]" by simp
  have all: "fst (scrape_loop dump sel mx (env # envs) s) = ev @ ev'"
    using it r rest by simp
  show ?case
    unfolding all delays_append ev first tail by (simp add: map_upt_Suc del: upt_Suc)
qed

lemma backoff_delays_from_floor:
  assumes "\<forall>env \<in> set envs. plain_failure env" and "backoff s = 1"
  shows "delays (fst (scrape_loop dump sel mx envs s)) =
           map (\<lambda>i. min (2 ^ i) 30) [0..<length envs]"
  using backoff_delays_doubling [OF assms(1), of s 0 dump sel mx] assms(2) by simp

lemma reset_to_floor:
  assumes "page_source env = Some html" and "parse_market_from_html sel mx html = Inr rs"
    and "rs \<noteq> []" and "driver s \<or> (\<not> create_raises env \<and> \<not> get_raises env)"
    and "mkstemp_name (body_os env) \<noteq> None"
  shows "backoff (snd (snd (scrape_iteration dump sel mx env s))) = 1 \<and>
         delays (fst (scrape_iteration dump sel mx env s)) = []"
  using assms
  by (auto simp: scrape_iteration_def try_body_def Let_def case_prod_beta save_exit_Raised)

text \<open>
  Claim C5 fails on the code in its last part. A pass extracts a non-empty list, stores
  it, and calls the writer (line 156); \<^verbatim>\<open>mkstemp\<close> raises, so line 158, which sets
  \<^verbatim>\<open>backoff\<close> to 1.0, is skipped and the exception handler runs: it sleeps for the
  current delay and doubles it. From a backoff of 4 the pass sleeps 4 and leaves 8.
\<close>

theorem backoff_not_reset:
  "parse_market_from_html (fixed_page btc_page) None (py ''<html>'') = Inr [btc] \<and>
   delays (fst (scrape_iteration line_dump (fixed_page btc_page) None
          (fetch_ok os_no_temp (os_ok ''tmp1'')) (holding_btc 4))) = [4] \<and>
   backoff (snd (snd (scrape_iteration line_dump (fixed_page btc_page) None
          (fetch_ok os_no_temp (os_ok ''tmp1'')) (holding_btc 4)))) = 8 \<and>
   fst (snd (scrape_iteration line_dump (fixed_page btc_page) None
          (fetch_ok os_no_temp (os_ok ''tmp1'')) (holding_btc 4))) = None"
  by (simp add: btc_page_parsed scrape_iteration_def try_body_def handler_def fetch_ok_def
      holding_btc_def Let_def case_prod_beta save_exit_Raised os_ok_def os_no_temp_def
      float_double_def)

end
